theory Spec2Isabelle
  imports Complex_Main "HOL-Library.Word"
begin

section \<open>Inventory manager: data model\<close>

text \<open>
  The program (\<^verbatim>\<open>src/main.cpp\<close>) keeps two global vectors, \<^verbatim>\<open>items\<close> and
  \<^verbatim>\<open>sales\<close>, and two global counters. The model passes them around as one record.

  A C++ \<^verbatim>\<open>int\<close> is a 32-bit word. Comparisons of the source are signed, so they are
  written on \<open>sint\<close>. Signed overflow (undefined in C++) is modelled as the two's-complement
  wrap-around that the usual compilers produce: \<open>+\<close> and \<open>-\<close> on \<open>32 word\<close>.

  A C++ \<^verbatim>\<open>double\<close> is a type parameter \<open>'d\<close>; what the program does with doubles
  (subtract, multiply, convert a literal or an int, print with \<^verbatim>\<open><<\<close>, read with
  \<^verbatim>\<open>stod\<close>) comes in a record of operations, so a theorem about \<open>ops\<close> holds for
  whatever these library operations compute.
\<close>

type_synonym int32 = "32 word"

datatype error = InvalidArgument | OutOfRange

record 'd double_ops =
  dsub :: "'d \<Rightarrow> 'd \<Rightarrow> 'd"
  dmul :: "'d \<Rightarrow> 'd \<Rightarrow> 'd"
  dconv :: "rat \<Rightarrow> 'd"
  dshow :: "'d \<Rightarrow> string"
  stod :: "string \<Rightarrow> error + 'd"

text \<open>
  \<open>dconv\<close> is the conversion of an exact number to the nearest double: a literal of the
  source (\<^verbatim>\<open>5.0\<close>) or an \<^verbatim>\<open>int\<close> operand of a double multiplication.
  \<open>stod\<close> throws \<^verbatim>\<open>std::invalid_argument\<close> or \<^verbatim>\<open>std::out_of_range\<close>: the
  \<open>Inl\<close> results.
\<close>

record 'd Item =
  id_item :: int32
  name :: string
  size_color :: string
  quantity :: int32
  purchase_price :: 'd
  selling_price :: 'd

record 'd Sale =
  id_sale :: int32
  item_id :: int32
  item_name :: string
  quantity_sold :: int32
  profit :: 'd
  date_sold :: string

record 'd state =
  items :: "'d Item list"
  sales :: "'d Sale list"
  nextItemId :: int32
  nextSaleId :: int32

text \<open>The globals as the program initialises them, before \<^verbatim>\<open>main\<close> runs.\<close>

definition initial_state :: "'d state" where
  "initial_state = \<lparr>items = [], sales = [], nextItemId = 1, nextSaleId = 1\<rparr>"

section \<open>Core logic functions\<close>

text \<open>
  \<^verbatim>\<open>find_if(items.begin(), items.end(), [id](const Item& item) { return item.id == id; })\<close>:
  the position of the first item with the id, \<open>None\<close> for \<^verbatim>\<open>items.end()\<close>.
\<close>

fun find_if_id :: "int32 \<Rightarrow> 'd Item list \<Rightarrow> nat option" where
  "find_if_id i [] = None"
| "find_if_id i (x # xs) =
     (if id_item x = i then Some 0 else map_option Suc (find_if_id i xs))"

definition find_by_id :: "int32 \<Rightarrow> 'd state \<Rightarrow> 'd Item option" where
  "find_by_id i st = map_option (\<lambda>k. items st ! k) (find_if_id i (items st))"

definition logic_addItem ::
  "string \<Rightarrow> string \<Rightarrow> int32 \<Rightarrow> 'd \<Rightarrow> 'd \<Rightarrow> 'd state \<Rightarrow> int32 \<times> 'd state" where
  "logic_addItem nm sz qty buy sell st =
     (let i = nextItemId st;
          st1 = st\<lparr>nextItemId := nextItemId st + 1\<rparr>
      in (i, st1\<lparr>items := items st1 @
            [\<lparr>id_item = i, name = nm, size_color = sz, quantity = qty,
              purchase_price = buy, selling_price = sell\<rparr>]\<rparr>))"

definition logic_deleteItem :: "int32 \<Rightarrow> 'd state \<Rightarrow> bool \<times> 'd state" where
  "logic_deleteItem i st =
     (case find_if_id i (items st) of
        Some k \<Rightarrow> (True, st\<lparr>items := take k (items st) @ drop (Suc k) (items st)\<rparr>)
      | None \<Rightarrow> (False, st))"

definition logic_updateItem ::
  "int32 \<Rightarrow> int32 \<Rightarrow> 'd \<Rightarrow> 'd \<Rightarrow> 'd state \<Rightarrow> bool \<times> 'd state" where
  "logic_updateItem i qty buy sell st =
     (case find_if_id i (items st) of
        Some k \<Rightarrow>
          (True, st\<lparr>items := (items st)[k := (items st ! k)
             \<lparr>quantity := qty, purchase_price := buy, selling_price := sell\<rparr>]\<rparr>)
      | None \<Rightarrow> (False, st))"

text \<open>
  \<^verbatim>\<open>logic_sellItem(id, qty, profitOut)\<close> returns 0 (success), 1 (item not found) or
  2 (not enough stock). The reference parameter \<^verbatim>\<open>profitOut\<close> goes in and comes
  back; \<open>now\<close> is what \<^verbatim>\<open>getCurrentDate()\<close> returns at the call.
\<close>

definition logic_sellItem ::
  "'d double_ops \<Rightarrow> string \<Rightarrow> int32 \<Rightarrow> int32 \<Rightarrow> 'd \<Rightarrow> 'd state \<Rightarrow> int32 \<times> 'd \<times> 'd state" where
  "logic_sellItem ops now i qty profitOut st =
     (case find_if_id i (items st) of
        None \<Rightarrow> (1, profitOut, st)
      | Some k \<Rightarrow>
          (let it = items st ! k in
           if sint (quantity it) < sint qty then (2, profitOut, st)
           else
             (let p = dmul ops (dsub ops (selling_price it) (purchase_price it))
                        (dconv ops (of_int (sint qty)));
                  it1 = it\<lparr>quantity := quantity it - qty\<rparr>;
                  sale = \<lparr>id_sale = nextSaleId st, item_id = id_item it1,
                          item_name = name it1, quantity_sold = qty, profit = p,
                          date_sold = now\<rparr>
              in (0, p, st\<lparr>items := (items st)[k := it1],
                             sales := sales st @ [sale],
                             nextSaleId := nextSaleId st + 1\<rparr>))))"

text \<open>
  A session of the menu loop is a sequence of calls of the four logic functions; it yields
  the final state and the ids that the \<^verbatim>\<open>logic_addItem\<close> calls returned, in order.
\<close>

datatype 'd call =
  Add string string int32 'd 'd
| Delete int32
| Update int32 int32 'd 'd
| Sell string int32 int32

fun run_call :: "'d double_ops \<Rightarrow> 'd call \<Rightarrow> 'd state \<Rightarrow> int32 list \<times> 'd state" where
  "run_call ops (Add nm sz qty buy sell) st =
     (case logic_addItem nm sz qty buy sell st of (i, st1) \<Rightarrow> ([i], st1))"
| "run_call ops (Delete i) st = ([], snd (logic_deleteItem i st))"
| "run_call ops (Update i qty buy sell) st = ([], snd (logic_updateItem i qty buy sell st))"
| "run_call ops (Sell now i qty) st =
     ([], snd (snd (logic_sellItem ops now i qty (dconv ops 0) st)))"

fun run_calls :: "'d double_ops \<Rightarrow> 'd call list \<Rightarrow> 'd state \<Rightarrow> int32 list \<times> 'd state" where
  "run_calls ops [] st = ([], st)"
| "run_calls ops (c # cs) st =
     (case run_call ops c st of (ids1, st1) \<Rightarrow>
        (case run_calls ops cs st1 of (ids2, st2) \<Rightarrow> (ids1 @ ids2, st2)))"

text \<open>The number of \<^verbatim>\<open>logic_addItem\<close> calls in a session.\<close>

fun adds :: "'d call list \<Rightarrow> nat" where
  "adds [] = 0"
| "adds (Add nm sz qty buy sell # cs) = Suc (adds cs)"
| "adds (c # cs) = adds cs"

text \<open>
  A sequence of sells only: each element is the clock's reading, the id and the quantity
  (\<^verbatim>\<open>ui_sellItem\<close> starts each call with \<^verbatim>\<open>profit = 0.0\<close>).
\<close>

fun sell_all :: "'d double_ops \<Rightarrow> (string \<times> int32 \<times> int32) list \<Rightarrow> 'd state \<Rightarrow> 'd state" where
  "sell_all ops [] st = st"
| "sell_all ops ((now, i, qty) # cs) st =
     sell_all ops cs (snd (snd (logic_sellItem ops now i qty (dconv ops 0) st)))"

text \<open>
  Whether a sequence of sells stays inside the range of \<^verbatim>\<open>int\<close>: no successful sell
  computes a stock \<^verbatim>\<open>quantity - qty\<close> above \<^verbatim>\<open>INT_MAX\<close>.
\<close>

fun sells_in_range :: "'d double_ops \<Rightarrow> (string \<times> int32 \<times> int32) list \<Rightarrow> 'd state \<Rightarrow> bool" where
  "sells_in_range ops [] st = True"
| "sells_in_range ops ((now, i, qty) # cs) st =
     ((case find_by_id i st of
         None \<Rightarrow> True
       | Some it \<Rightarrow> sint (quantity it) < sint qty \<or> sint (quantity it) - sint qty \<le> 2147483647)
      \<and> sells_in_range ops cs (snd (snd (logic_sellItem ops now i qty (dconv ops 0) st))))"

section \<open>Text: what the streams and the string conversions do\<close>

text \<open>
  \<^verbatim>\<open>trim\<close> cuts the characters of \<^verbatim>\<open>" \t\n\r"\<close> from both ends
  (\<^verbatim>\<open>find_first_not_of\<close>, \<^verbatim>\<open>find_last_not_of\<close>, \<^verbatim>\<open>substr\<close>).
\<close>

definition trim_char :: "char \<Rightarrow> bool" where
  "trim_char c = (c = CHR '' '' \<or> c = CHR 0x09 \<or> c = CHR 0x0A \<or> c = CHR 0x0D)"

definition trim :: "string \<Rightarrow> string" where
  "trim s = rev (dropWhile trim_char (rev (dropWhile trim_char s)))"

text \<open>
  \<^verbatim>\<open>while (getline(stream, piece, delim))\<close>: the pieces between delimiters. At the end
  of the stream a piece with no character and no delimiter is a failed read, so a text
  that ends in the delimiter has no empty last piece.
\<close>

fun getline_loop :: "char \<Rightarrow> string \<Rightarrow> string \<Rightarrow> string list" where
  "getline_loop d cur [] = (if cur = [] then [] else [cur])"
| "getline_loop d cur (c # cs) =
     (if c = d then cur # getline_loop d [] cs else getline_loop d (cur @ [c]) cs)"

definition file_lines :: "string \<Rightarrow> string list" where
  "file_lines txt = getline_loop (CHR 0x0A) [] txt"

definition parseCSV :: "string \<Rightarrow> string list" where
  "parseCSV line = getline_loop (CHR '','') [] line"

text \<open>\<^verbatim>\<open>stream << n\<close> for an \<^verbatim>\<open>int\<close>: decimal digits, a minus sign when negative.\<close>

definition digit_char :: "nat \<Rightarrow> char" where
  "digit_char n = char_of (48 + n)"

fun show_nat :: "nat \<Rightarrow> string" where
  "show_nat n = (if n < 10 then [digit_char n] else show_nat (n div 10) @ [digit_char (n mod 10)])"

declare show_nat.simps [simp del]

definition show_int :: "int32 \<Rightarrow> string" where
  "show_int w =
     (if sint w < 0 then CHR ''-'' # show_nat (nat (- sint w)) else show_nat (nat (sint w)))"

text \<open>
  \<^verbatim>\<open>std::stoi(s)\<close>: \<^verbatim>\<open>strtol\<close> in base 10. It skips leading white space, reads an
  optional sign and the longest run of digits, and ignores what follows. With no digit it
  throws \<^verbatim>\<open>std::invalid_argument\<close>, with a value outside \<^verbatim>\<open>int\<close> it throws
  \<^verbatim>\<open>std::out_of_range\<close>.
\<close>

definition isspace :: "char \<Rightarrow> bool" where
  "isspace c = (c = CHR '' '' \<or> (9 \<le> (of_char c :: nat) \<and> (of_char c :: nat) \<le> 13))"

definition isdigit :: "char \<Rightarrow> bool" where
  "isdigit c = (48 \<le> (of_char c :: nat) \<and> (of_char c :: nat) \<le> 57)"

definition digits_val :: "string \<Rightarrow> nat" where
  "digits_val ds = foldl (\<lambda>a c. 10 * a + (of_char c - 48)) 0 ds"

definition stoi :: "string \<Rightarrow> error + int32" where
  "stoi s =
     (let s1 = dropWhile isspace s;
          neg = (s1 \<noteq> [] \<and> hd s1 = CHR ''-'');
          s2 = (if s1 \<noteq> [] \<and> (hd s1 = CHR ''-'' \<or> hd s1 = CHR ''+'') then tl s1 else s1);
          ds = takeWhile isdigit s2
      in if ds = [] then Inl InvalidArgument
         else
           (let v = (if neg then - int (digits_val ds) else int (digits_val ds))
            in if - 2147483648 \<le> v \<and> v \<le> 2147483647 then Inr (word_of_int v)
               else Inl OutOfRange))"

section \<open>File persistence\<close>

text \<open>
  The two files: \<open>None\<close> is a file that does not exist (or cannot be opened for
  reading).
\<close>

record files =
  items_csv :: "string option"
  sales_csv :: "string option"

definition item_line :: "'d double_ops \<Rightarrow> 'd Item \<Rightarrow> string" where
  "item_line ops it =
     show_int (id_item it) @ '','' @ name it @ '','' @ size_color it @ '','' @
     show_int (quantity it) @ '','' @ dshow ops (purchase_price it) @ '','' @
     dshow ops (selling_price it) @ [CHR 0x0A]"

definition sale_line :: "'d double_ops \<Rightarrow> 'd Sale \<Rightarrow> string" where
  "sale_line ops s =
     show_int (id_sale s) @ '','' @ show_int (item_id s) @ '','' @ item_name s @ '','' @
     show_int (quantity_sold s) @ '','' @ dshow ops (profit s) @ '','' @
     date_sold s @ [CHR 0x0A]"

text \<open>
  \<^verbatim>\<open>saveData\<close>: \<open>wi\<close> and \<open>ws\<close> say whether each \<^verbatim>\<open>ofstream\<close> opens. A file
  that opens is overwritten; one that does not is left as it is.
\<close>

definition saveData :: "'d double_ops \<Rightarrow> bool \<Rightarrow> bool \<Rightarrow> 'd state \<Rightarrow> files \<Rightarrow> files" where
  "saveData ops wi ws st fs =
     \<lparr>items_csv = (if wi then Some (concat (map (item_line ops) (items st))) else items_csv fs),
      sales_csv = (if ws then Some (concat (map (sale_line ops) (sales st))) else sales_csv fs)\<rparr>"

definition seedData :: "'d double_ops \<Rightarrow> 'd state \<Rightarrow> 'd state" where
  "seedData ops st =
     (let st1 = st\<lparr>items := items st @
                   [\<lparr>id_item = nextItemId st, name = ''Widget'', size_color = ''Small'',
                     quantity = 10, purchase_price = dconv ops 5, selling_price = dconv ops 8\<rparr>],
                 nextItemId := nextItemId st + 1\<rparr>;
          st2 = st1\<lparr>items := items st1 @
                   [\<lparr>id_item = nextItemId st1, name = ''Bolt'', size_color = ''Red'',
                     quantity = 3, purchase_price = dconv ops (1/2), selling_price = dconv ops 1\<rparr>],
                 nextItemId := nextItemId st1 + 1\<rparr>
      in st2\<lparr>items := items st2 @
                   [\<lparr>id_item = nextItemId st2, name = ''Gadget'', size_color = ''Blue'',
                     quantity = 20, purchase_price = dconv ops 10, selling_price = dconv ops 15\<rparr>],
              nextItemId := nextItemId st2 + 1\<rparr>)"

text \<open>
  One row of each file, once \<^verbatim>\<open>data.size() >= 6\<close> holds. The conversions run in the
  order of the source's assignments; the first exception leaves the function.
\<close>

definition and_then :: "error + 'a \<Rightarrow> ('a \<Rightarrow> error + 'b) \<Rightarrow> error + 'b" where
  "and_then r f = (case r of Inl e \<Rightarrow> Inl e | Inr x \<Rightarrow> f x)"

definition parse_item :: "'d double_ops \<Rightarrow> string list \<Rightarrow> error + 'd Item" where
  "parse_item ops data =
     and_then (stoi (data ! 0)) (\<lambda>i.
     and_then (stoi (data ! 3)) (\<lambda>q.
     and_then (stod ops (data ! 4)) (\<lambda>b.
     and_then (stod ops (data ! 5)) (\<lambda>s.
       Inr \<lparr>id_item = i, name = data ! 1, size_color = data ! 2, quantity = q,
            purchase_price = b, selling_price = s\<rparr>))))"

definition parse_sale :: "'d double_ops \<Rightarrow> string list \<Rightarrow> error + 'd Sale" where
  "parse_sale ops data =
     and_then (stoi (data ! 0)) (\<lambda>i.
     and_then (stoi (data ! 1)) (\<lambda>j.
     and_then (stoi (data ! 3)) (\<lambda>q.
     and_then (stod ops (data ! 4)) (\<lambda>p.
       Inr \<lparr>id_sale = i, item_id = j, item_name = data ! 2, quantity_sold = q,
            profit = p, date_sold = data ! 5\<rparr>))))"

text \<open>The two \<^verbatim>\<open>while (getline(file, line))\<close> loops of \<^verbatim>\<open>loadData\<close>.\<close>

fun load_items :: "'d double_ops \<Rightarrow> string list \<Rightarrow> 'd state \<Rightarrow> error + 'd state" where
  "load_items ops [] st = Inr st"
| "load_items ops (line # rest) st =
     (if trim line = [] then load_items ops rest st
      else
        (let data = parseCSV line in
         if 6 \<le> length data then
           (case parse_item ops data of
              Inl e \<Rightarrow> Inl e
            | Inr it \<Rightarrow>
                load_items ops rest
                  (st\<lparr>items := items st @ [it],
                      nextItemId := (if sint (nextItemId st) \<le> sint (id_item it)
                                     then id_item it + 1 else nextItemId st)\<rparr>))
         else load_items ops rest st))"

fun load_sales :: "'d double_ops \<Rightarrow> string list \<Rightarrow> 'd state \<Rightarrow> error + 'd state" where
  "load_sales ops [] st = Inr st"
| "load_sales ops (line # rest) st =
     (if trim line = [] then load_sales ops rest st
      else
        (let data = parseCSV line in
         if 6 \<le> length data then
           (case parse_sale ops data of
              Inl e \<Rightarrow> Inl e
            | Inr s \<Rightarrow>
                load_sales ops rest
                  (st\<lparr>sales := sales st @ [s],
                      nextSaleId := (if sint (nextSaleId st) \<le> sint (id_sale s)
                                     then id_sale s + 1 else nextSaleId st)\<rparr>))
         else load_sales ops rest st))"

text \<open>
  \<^verbatim>\<open>loadData\<close>. An exception of \<^verbatim>\<open>stoi\<close> or \<^verbatim>\<open>stod\<close> is caught nowhere
  (\<^verbatim>\<open>main\<close> calls \<^verbatim>\<open>loadData\<close> outside any \<^verbatim>\<open>try\<close>), so it ends the call
  and the program: the \<open>Inl\<close> result.
\<close>

definition loadData :: "'d double_ops \<Rightarrow> files \<Rightarrow> 'd state \<Rightarrow> error + 'd state" where
  "loadData ops fs st =
     (let st0 = st\<lparr>items := [], sales := [], nextItemId := 1, nextSaleId := 1\<rparr> in
      and_then (case items_csv fs of
                  None \<Rightarrow> Inr st0
                | Some txt \<Rightarrow> load_items ops (file_lines txt) st0) (\<lambda>st1.
      and_then (case sales_csv fs of
                  None \<Rightarrow> Inr st1
                | Some txt \<Rightarrow> load_sales ops (file_lines txt) st1) (\<lambda>st2.
        Inr (if items st2 = [] \<and> sales st2 = [] then seedData ops st2 else st2))))"

section \<open>An exact arithmetic to run examples\<close>

text \<open>
  To evaluate the functions on concrete inputs the operations on doubles need values.
  \<open>exact_ops\<close> computes on rationals without rounding; it prints and reads plain decimal
  notation with up to six digits after the point. On the numbers of the examples below
  (small integers and halves) no rounding happens in double arithmetic either.
\<close>

fun frac_digits :: "nat \<Rightarrow> rat \<Rightarrow> string" where
  "frac_digits 0 r = []"
| "frac_digits (Suc n) r =
     (if r = 0 then []
      else (let d = nat \<lfloor>r * 10\<rfloor> in digit_char d # frac_digits n (r * 10 - of_nat d)))"

definition show_exact :: "rat \<Rightarrow> string" where
  "show_exact r =
     (let a = \<bar>r\<bar>; ip = nat \<lfloor>a\<rfloor>; fr = frac_digits 6 (a - of_nat ip)
      in (if r < 0 then ''-'' else []) @ show_nat ip @ (if fr = [] then [] else CHR ''.'' # fr))"

definition read_exact :: "string \<Rightarrow> error + rat" where
  "read_exact s =
     (let s1 = dropWhile isspace s;
          neg = (s1 \<noteq> [] \<and> hd s1 = CHR ''-'');
          s2 = (if s1 \<noteq> [] \<and> (hd s1 = CHR ''-'' \<or> hd s1 = CHR ''+'') then tl s1 else s1);
          ip = takeWhile isdigit s2;
          r = dropWhile isdigit s2;
          fp = (if r \<noteq> [] \<and> hd r = CHR ''.'' then takeWhile isdigit (tl r) else [])
      in if ip = [] \<and> fp = [] then Inl InvalidArgument
         else
           (let v = of_nat (digits_val ip) + of_nat (digits_val fp) / 10 ^ length fp
            in Inr (if neg then - v else v)))"

definition exact_ops :: "rat double_ops" where
  "exact_ops = \<lparr>dsub = (\<lambda>a b. a - b), dmul = (\<lambda>a b. a * b), dconv = (\<lambda>r. r),
                dshow = show_exact, stod = read_exact\<rparr>"

text \<open>A store with two of the default items, for the examples.\<close>

definition example_state :: "rat state" where
  "example_state =
     \<lparr>items = [\<lparr>id_item = 1, name = ''Widget'', size_color = ''Small'', quantity = 10,
                 purchase_price = 5, selling_price = 8\<rparr>,
               \<lparr>id_item = 2, name = ''Bolt'', size_color = ''Red'', quantity = 3,
                 purchase_price = 1/2, selling_price = 1\<rparr>],
      sales = [], nextItemId = 3, nextSaleId = 1\<rparr>"


definition full_stock_state :: "rat state" where
  "full_stock_state =
     \<lparr>items = [\<lparr>id_item = 1, name = ''Cog'', size_color = ''Green'', quantity = 2147483647,
                 purchase_price = 1, selling_price = 2\<rparr>],
      sales = [], nextItemId = 2, nextSaleId = 1\<rparr>"

text \<open>
  An items file whose largest id is \<^verbatim>\<open>INT_MAX - 1\<close>, and the state that
  \<^verbatim>\<open>loadData\<close> builds from it.
\<close>

definition wrapped_files :: files where
  "wrapped_files =
     \<lparr>items_csv = Some (''-2147483648,Cog,Green,2,1,2'' @ [CHR 0x0A] @
                         ''2147483646,Nut,Grey,3,1,2'' @ [CHR 0x0A]),
      sales_csv = None\<rparr>"

definition wrapped_state :: "rat state" where
  "wrapped_state =
     \<lparr>items = [\<lparr>id_item = - 2147483648, name = ''Cog'', size_color = ''Green'', quantity = 2,
                 purchase_price = 1, selling_price = 2\<rparr>,
               \<lparr>id_item = 2147483646, name = ''Nut'', size_color = ''Grey'', quantity = 3,
                 purchase_price = 1, selling_price = 2\<rparr>],
      sales = [], nextItemId = 2147483647, nextSaleId = 1\<rparr>"

section \<open>What a state must satisfy to be stored and read back\<close>

text \<open>
  The rows that \<^verbatim>\<open>saveData\<close> writes, as lists of fields: \<open>item_line\<close> and
  \<open>sale_line\<close> are these fields joined by commas and ended by a newline
  (\<open>item_line_fields\<close>, \<open>sale_line_fields\<close> below).
\<close>

fun join_commas :: "string list \<Rightarrow> string" where
  "join_commas [] = []"
| "join_commas [f] = f"
| "join_commas (f # g # fs) = f @ CHR '','' # join_commas (g # fs)"

definition item_fields :: "'d double_ops \<Rightarrow> 'd Item \<Rightarrow> string list" where
  "item_fields ops it =
     [show_int (id_item it), name it, size_color it, show_int (quantity it),
      dshow ops (purchase_price it), dshow ops (selling_price it)]"

definition sale_fields :: "'d double_ops \<Rightarrow> 'd Sale \<Rightarrow> string list" where
  "sale_fields ops s =
     [show_int (id_sale s), show_int (item_id s), item_name s, show_int (quantity_sold s),
      dshow ops (profit s), date_sold s]"

text \<open>
  The format has no quoting: a text field survives only when it holds neither the delimiter
  nor a newline. A double survives when \<^verbatim>\<open>stod\<close> reads what \<^verbatim>\<open><<\<close> printed back
  as the same value (\<^verbatim>\<open><<\<close> prints six significant digits). The last field of a sale
  row, the date, must not be empty: \<^verbatim>\<open>getline\<close> drops an empty last field.
\<close>

definition plain_text :: "string \<Rightarrow> bool" where
  "plain_text s = (CHR '','' \<notin> set s \<and> CHR 0x0A \<notin> set s)"


definition double_roundtrips :: "'d double_ops \<Rightarrow> 'd \<Rightarrow> bool" where
  "double_roundtrips ops x =
     (dshow ops x \<noteq> [] \<and> plain_text (dshow ops x) \<and> stod ops (dshow ops x) = Inr x)"

definition item_storable :: "'d double_ops \<Rightarrow> 'd Item \<Rightarrow> bool" where
  "item_storable ops it =
     (plain_text (name it) \<and> plain_text (size_color it) \<and>
      double_roundtrips ops (purchase_price it) \<and> double_roundtrips ops (selling_price it))"

definition sale_storable :: "'d double_ops \<Rightarrow> 'd Sale \<Rightarrow> bool" where
  "sale_storable ops s =
     (plain_text (item_name s) \<and> double_roundtrips ops (profit s) \<and>
      date_sold s \<noteq> [] \<and> plain_text (date_sold s))"

text \<open>
  The counter after a load: each row read raises it to the row's id plus one when the id
  is not below it (\<^verbatim>\<open>if (it.id >= nextItemId) nextItemId = it.id + 1;\<close>).
\<close>

definition bump_id :: "int32 \<Rightarrow> int32 \<Rightarrow> int32" where
  "bump_id n i = (if sint n \<le> sint i then i + 1 else n)"

text \<open>The example store after 2 widgets were sold.\<close>

definition sold_state :: "rat state" where
  "sold_state =
     \<lparr>items = [\<lparr>id_item = 1, name = ''Widget'', size_color = ''Small'', quantity = 8,
                 purchase_price = 5, selling_price = 8\<rparr>,
               \<lparr>id_item = 2, name = ''Bolt'', size_color = ''Red'', quantity = 3,
                 purchase_price = 1/2, selling_price = 1\<rparr>],
      sales = [\<lparr>id_sale = 1, item_id = 1, item_name = ''Widget'', quantity_sold = 2,
                 profit = 6, date_sold = ''2026-10-30 09:00:00''\<rparr>],
      nextItemId = 3, nextSaleId = 2\<rparr>"

section \<open>Facts about the lookup\<close>

lemma find_if_id_None: "find_if_id i xs = None \<longleftrightarrow> i \<notin> id_item ` set xs"
  by (induction xs) auto

lemma find_if_id_Some:
  "find_if_id i xs = Some k \<Longrightarrow>
     k < length xs \<and> id_item (xs ! k) = i \<and> i \<notin> id_item ` set (take k xs)"
proof (induction xs arbitrary: k)
  case Nil
  then show ?case by simp
next
  case (Cons x xs)
  show ?case
  proof (cases "id_item x = i")
    case True
    with Cons.prems show ?thesis by simp
  next
    case False
    with Cons.prems obtain j where j: "find_if_id i xs = Some j" "k = Suc j"
      by auto
    from Cons.IH [OF j(1)] False j(2) show ?thesis by simp
  qed
qed

lemma find_by_id_None: "find_by_id i st = None \<longleftrightarrow> i \<notin> id_item ` set (items st)"
  by (simp add: find_by_id_def find_if_id_None)

lemma find_by_id_Some:
  "find_by_id i st = Some it \<longleftrightarrow> (\<exists>k. find_if_id i (items st) = Some k \<and> it = items st ! k)"
  by (auto simp: find_by_id_def)

lemma sint_sub_in_range:
  fixes a b :: int32
  assumes "- 2147483648 \<le> sint a - sint b" and "sint a - sint b \<le> 2147483647"
  shows "sint (a - b) = sint a - sint b"
  using assms by (simp add: sint_word_ariths signed_take_bit_int_eq_self)

section \<open>The sell transaction\<close>



text \<open>
  Claim C2. If no item has the id, \<^verbatim>\<open>logic_sellItem\<close> returns 1 and the state (and
  \<^verbatim>\<open>profitOut\<close>) is unchanged; if the item found has fewer than \<open>q\<close> in stock, it returns
  2 and the state is unchanged; and every call returns 0, or 1 in the first situation, or
  2 in the second: there is no other failure.
\<close>

theorem sell_failures:
  "(i \<notin> id_item ` set (items st) \<longrightarrow> logic_sellItem ops now i q po st = (1, po, st)) \<and>
   (\<forall>it. find_by_id i st = Some it \<and> sint (quantity it) < sint q \<longrightarrow>
      logic_sellItem ops now i q po st = (2, po, st)) \<and>
   (fst (logic_sellItem ops now i q po st) = 0 \<or>
    fst (logic_sellItem ops now i q po st) = 1 \<and> i \<notin> id_item ` set (items st) \<or>
    fst (logic_sellItem ops now i q po st) = 2 \<and>
      (\<exists>it. find_by_id i st = Some it \<and> sint (quantity it) < sint q))"
  by (auto simp: logic_sellItem_def Let_def find_by_id_def find_if_id_None [symmetric]
      split: option.splits)

text \<open>Id 7 is not in the store; 5 bolts are more than the 3 in stock.\<close>

theorem sell_failures_witness:
  "(7 :: int32) \<notin> id_item ` set (items example_state) \<and>
   logic_sellItem exact_ops ''t'' 7 1 0 example_state = (1, 0, example_state) \<and>
   find_by_id 2 example_state = Some (items example_state ! 1) \<and>
   sint (quantity (items example_state ! 1)) < sint (5 :: int32) \<and>
   logic_sellItem exact_ops ''t'' 2 5 0 example_state = (2, 0, example_state)"
proof -
  have h1: "(7 :: int32) \<notin> id_item ` set (items example_state)"
    by (simp add: example_state_def)
  have h2: "find_by_id 2 example_state = Some (items example_state ! 1)"
    by (simp add: example_state_def find_by_id_def)
  have h3: "sint (quantity (items example_state ! 1)) < sint (5 :: int32)"
    by (simp add: example_state_def)
  from sell_failures [of 7 example_state exact_ops "''t''" 1 0] h1
  have a: "logic_sellItem exact_ops ''t'' 7 1 0 example_state = (1, 0, example_state)"
    by blast
  from sell_failures [of 2 example_state exact_ops "''t''" 5 0] h2 h3
  have b: "logic_sellItem exact_ops ''t'' 2 5 0 example_state = (2, 0, example_state)"
    by blast
  from h1 h2 h3 a b show ?thesis by blast
qed

section \<open>Update\<close>



section \<open>Loading\<close>

text \<open>The definitions that evaluate a load of concrete files.\<close>

lemmas load_eval = loadData_def and_then_def file_lines_def trim_def trim_char_def parseCSV_def
  parse_item_def parse_sale_def stoi_def isspace_def isdigit_def digits_val_def read_exact_def
  exact_ops_def

lemma reset_state:
  "(st :: 'd state)\<lparr>items := a, sales := b, nextItemId := c, nextSaleId := d\<rparr> =
     \<lparr>items = a, sales = b, nextItemId = c, nextSaleId = d\<rparr>"
  by simp

declare reset_state [simp]

text \<open>
  Claim C9. When neither file exists, \<^verbatim>\<open>loadData\<close> ends with exactly the three default
  items, with ids 1, 2 and 3, no sales, and the next-item-id counter at 4 (the next-sale-id
  counter is 1). The prices are the doubles of the literals 5.0, 8.0, 0.5, 1.0, 10.0, 15.0.
\<close>

theorem load_absent_seeds:
  "loadData ops \<lparr>items_csv = None, sales_csv = None\<rparr> st =
     Inr \<lparr>items =
            [\<lparr>id_item = 1, name = ''Widget'', size_color = ''Small'', quantity = 10,
              purchase_price = dconv ops 5, selling_price = dconv ops 8\<rparr>,
             \<lparr>id_item = 2, name = ''Bolt'', size_color = ''Red'', quantity = 3,
              purchase_price = dconv ops (1/2), selling_price = dconv ops 1\<rparr>,
             \<lparr>id_item = 3, name = ''Gadget'', size_color = ''Blue'', quantity = 20,
              purchase_price = dconv ops 10, selling_price = dconv ops 15\<rparr>],
          sales = [], nextItemId = 4, nextSaleId = 1\<rparr>"
  by (simp add: loadData_def and_then_def seedData_def Let_def)

text \<open>The same in the exact arithmetic, from a store that held other data.\<close>

theorem load_absent_seeds_witness:
  "loadData exact_ops \<lparr>items_csv = None, sales_csv = None\<rparr> example_state =
     Inr \<lparr>items =
            [\<lparr>id_item = 1, name = ''Widget'', size_color = ''Small'', quantity = 10,
              purchase_price = 5, selling_price = 8\<rparr>,
             \<lparr>id_item = 2, name = ''Bolt'', size_color = ''Red'', quantity = 3,
              purchase_price = 1/2, selling_price = 1\<rparr>,
             \<lparr>id_item = 3, name = ''Gadget'', size_color = ''Blue'', quantity = 20,
              purchase_price = 10, selling_price = 15\<rparr>],
          sales = [], nextItemId = 4, nextSaleId = 1\<rparr>"
  using load_absent_seeds [of exact_ops example_state] by (simp add: exact_ops_def)

text \<open>
  Claim C10. \<^verbatim>\<open>loadData\<close> clears both vectors and resets both counters before it
  reads, so its result (a state, or the exception that ends it) is the same from every
  prior in-memory state, the initial one included: it depends on the files only. Loading
  the same files a second time gives the result of loading them once.
\<close>

theorem load_ignores_memory:
  "loadData ops fs st = loadData ops fs st' \<and>
   loadData ops fs st = loadData ops fs initial_state \<and>
   and_then (loadData ops fs st) (loadData ops fs) = loadData ops fs st"
proof -
  have eq: "loadData ops fs a = loadData ops fs b" for a b
    by (simp add: loadData_def)
  have "and_then (loadData ops fs st) (loadData ops fs) = loadData ops fs st"
  proof (cases "loadData ops fs st")
    case (Inl e)
    then show ?thesis by (simp add: and_then_def)
  next
    case (Inr s)
    then show ?thesis using eq [of s st] by (simp add: and_then_def)
  qed
  with eq [of st st'] eq [of st initial_state] show ?thesis by simp
qed

text \<open>Loading a one-line items file over the example store and over the initial state.\<close>

theorem load_ignores_memory_witness:
  "loadData exact_ops \<lparr>items_csv = Some ''7,Cog,Green,2,1,2'', sales_csv = None\<rparr> example_state =
     Inr \<lparr>items = [\<lparr>id_item = 7, name = ''Cog'', size_color = ''Green'', quantity = 2,
              purchase_price = 1, selling_price = 2\<rparr>], sales = [], nextItemId = 8, nextSaleId = 1\<rparr> \<and>
   loadData exact_ops \<lparr>items_csv = Some ''7,Cog,Green,2,1,2'', sales_csv = None\<rparr> example_state =
   loadData exact_ops \<lparr>items_csv = Some ''7,Cog,Green,2,1,2'', sales_csv = None\<rparr> initial_state"
proof -
  have "loadData exact_ops \<lparr>items_csv = Some ''7,Cog,Green,2,1,2'', sales_csv = None\<rparr> initial_state =
     Inr \<lparr>items = [\<lparr>id_item = 7, name = ''Cog'', size_color = ''Green'', quantity = 2,
              purchase_price = 1, selling_price = 2\<rparr>], sales = [], nextItemId = 8, nextSaleId = 1\<rparr>"
    by (simp add: load_eval initial_state_def)
  with load_ignores_memory [of exact_ops "\<lparr>items_csv = Some ''7,Cog,Green,2,1,2'', sales_csv = None\<rparr>" example_state]
  show ?thesis by simp
qed

text \<open>
  Claim C6 (the code does not do what the claim says). A row with six fields whose id is
  not a number is not skipped: \<^verbatim>\<open>stoi\<close> throws \<^verbatim>\<open>std::invalid_argument\<close>, nothing
  catches it, and the load ends without a state; the well-formed row after it is never
  read. This holds whatever the operations on doubles are.
\<close>

theorem load_malformed_number:
  "loadData ops \<lparr>items_csv = Some (''abc,Bolt,Red,3,0.5,1'' @ [CHR 0x0A] @ ''1,Widget,Small,10,5,8'' @ [CHR 0x0A]),
                 sales_csv = None\<rparr> st = Inl InvalidArgument"
  by (simp add: loadData_def and_then_def file_lines_def trim_def trim_char_def parseCSV_def
      parse_item_def stoi_def isspace_def isdigit_def)

section \<open>Selling a quantity that is zero or negative\<close>




section \<open>Stock stays non-negative\<close>

lemma sell_step_nonnegative:
  assumes inv: "\<forall>it\<in>set (items st). 0 \<le> sint (quantity it)"
    and rng: "case find_by_id i st of None \<Rightarrow> True
              | Some it \<Rightarrow> sint (quantity it) < sint q \<or> sint (quantity it) - sint q \<le> 2147483647"
  shows "\<forall>it\<in>set (items (snd (snd (logic_sellItem ops now i q po st)))). 0 \<le> sint (quantity it)"
proof (cases "find_if_id i (items st)")
  case None
  then show ?thesis using inv by (simp add: logic_sellItem_def)
next
  case (Some k)
  show ?thesis
  proof (cases "sint (quantity (items st ! k)) < sint q")
    case True
    then show ?thesis using inv Some by (simp add: logic_sellItem_def Let_def)
  next
    case False
    with rng Some have le: "sint (quantity (items st ! k)) - sint q \<le> 2147483647"
      by (simp add: find_by_id_def)
    from False have "- 2147483648 \<le> sint (quantity (items st ! k)) - sint q" by simp
    then have eq: "sint (quantity (items st ! k) - q) = sint (quantity (items st ! k)) - sint q"
      using le by (rule sint_sub_in_range)
    have "0 \<le> sint (quantity it)"
      if "it \<in> set ((items st)[k := (items st ! k)\<lparr>quantity := quantity (items st ! k) - q\<rparr>])" for it
    proof -
      from that set_update_subset_insert
      have "it = (items st ! k)\<lparr>quantity := quantity (items st ! k) - q\<rparr> \<or> it \<in> set (items st)"
        by fastforce
      then show ?thesis using inv eq False by auto
    qed
    then show ?thesis using Some False by (simp add: logic_sellItem_def Let_def)
  qed
qed

lemma sells_in_range_nonnegative:
  assumes "\<forall>it\<in>set (items st). 0 \<le> sint (quantity it)"
    and "\<forall>c\<in>set cs. 0 \<le> sint (snd (snd c))"
  shows "sells_in_range ops cs st"
  using assms
proof (induction cs arbitrary: st)
  case Nil
  then show ?case by simp
next
  case (Cons c cs)
  obtain now i q where c: "c = (now, i, q)" by (cases c) auto
  from Cons.prems(2) c have q: "0 \<le> sint q" by simp
  have rng: "case find_by_id i st of None \<Rightarrow> True
             | Some it \<Rightarrow> sint (quantity it) < sint q \<or> sint (quantity it) - sint q \<le> 2147483647"
  proof (cases "find_by_id i st")
    case None
    then show ?thesis by simp
  next
    case (Some it)
    have "sint (quantity it) < 2 ^ (LENGTH(32) - 1)" by (rule sint_lt)
    with q Some show ?thesis by simp
  qed
  from sell_step_nonnegative [OF Cons.prems(1) rng]
  have "\<forall>it\<in>set (items (snd (snd (logic_sellItem ops now i q (dconv ops 0) st)))). 0 \<le> sint (quantity it)" .
  from Cons.IH [OF this] Cons.prems(2) rng c show ?case by simp
qed

text \<open>
  Claim C5, as amended. From a state where every quantity is non-negative, a sequence of
  sells (any ids, any quantities, negative ones too) in which no successful sell computes a
  stock above \<^verbatim>\<open>INT_MAX\<close> ends in a state where every quantity is non-negative. By
  \<open>sells_in_range_nonnegative\<close> every sequence of non-negative quantities is such a
  sequence. And a sell of an item that is found and whose stock minus \<open>q\<close> would be negative
  returns 2 and changes nothing.
\<close>

theorem sell_all_nonnegative:
  assumes "\<forall>it\<in>set (items st). 0 \<le> sint (quantity it)"
    and "sells_in_range ops cs st"
  shows "(\<forall>it\<in>set (items (sell_all ops cs st)). 0 \<le> sint (quantity it)) \<and>
         (\<forall>now i q po it. find_by_id i st = Some it \<and> sint (quantity it) - sint q < 0 \<longrightarrow>
            logic_sellItem ops now i q po st = (2, po, st))"
proof -
  have "\<forall>it\<in>set (items (sell_all ops cs st)). 0 \<le> sint (quantity it)"
    using assms
  proof (induction cs arbitrary: st)
    case Nil
    then show ?case by simp
  next
    case (Cons c cs)
    obtain now i q where c: "c = (now, i, q)" by (cases c) auto
    from Cons.prems(2) c
    have rng: "case find_by_id i st of None \<Rightarrow> True
               | Some it \<Rightarrow> sint (quantity it) < sint q \<or> sint (quantity it) - sint q \<le> 2147483647"
      and rest: "sells_in_range ops cs (snd (snd (logic_sellItem ops now i q (dconv ops 0) st)))"
      by simp_all
    from Cons.IH [OF sell_step_nonnegative [OF Cons.prems(1) rng] rest] c
    show ?case by simp
  qed
  moreover have "logic_sellItem ops now i q po st = (2, po, st)"
    if "find_by_id i st = Some it \<and> sint (quantity it) - sint q < 0" for now i q po it
    using that by (auto simp: find_by_id_def logic_sellItem_def Let_def)
  ultimately show ?thesis by blast
qed

text \<open>
  Four sells on the example store: 4 widgets, 5 bolts (refused), -2 widgets, 8 widgets.
\<close>

theorem sell_all_nonnegative_witness:
  "map (\<lambda>it. sint (quantity it)) (items example_state) = [10, 3] \<and>
   sells_in_range exact_ops [(''t1'', 1, 4), (''t2'', 2, 5), (''t3'', 1, - 2), (''t4'', 1, 8)] example_state \<and>
   map (\<lambda>it. sint (quantity it))
     (items (sell_all exact_ops [(''t1'', 1, 4), (''t2'', 2, 5), (''t3'', 1, - 2), (''t4'', 1, 8)] example_state))
     = [0, 3] \<and>
   find_by_id 2 example_state = Some (items example_state ! 1) \<and>
   logic_sellItem exact_ops ''t2'' 2 5 0 example_state = (2, 0, example_state)"
proof -
  have h1: "\<forall>it\<in>set (items example_state). 0 \<le> sint (quantity it)"
    by (simp add: example_state_def)
  have h2: "sells_in_range exact_ops [(''t1'', 1, 4), (''t2'', 2, 5), (''t3'', 1, - 2), (''t4'', 1, 8)] example_state"
    by (simp add: example_state_def exact_ops_def find_by_id_def logic_sellItem_def Let_def)
  have h3: "find_by_id 2 example_state = Some (items example_state ! 1)"
    by (simp add: example_state_def find_by_id_def)
  have h4: "sint (quantity (items example_state ! 1)) - sint (5 :: int32) < 0"
    by (simp add: example_state_def)
  have h5: "map (\<lambda>it. sint (quantity it))
     (items (sell_all exact_ops [(''t1'', 1, 4), (''t2'', 2, 5), (''t3'', 1, - 2), (''t4'', 1, 8)] example_state))
     = [0, 3]"
    by (simp add: example_state_def exact_ops_def find_by_id_def logic_sellItem_def Let_def)
  from sell_all_nonnegative [OF h1 h2] h3 h4
  have "logic_sellItem exact_ops ''t2'' 2 5 0 example_state = (2, 0, example_state)"
    by blast
  moreover have "map (\<lambda>it. sint (quantity it)) (items example_state) = [10, 3]"
    by (simp add: example_state_def)
  ultimately show ?thesis using h2 h3 h5 by blast
qed

text \<open>
  The claim as stated fails on overflow: with \<^verbatim>\<open>INT_MAX\<close> in stock, selling -1 passes
  the check \<^verbatim>\<open>qty > it->quantity\<close> and the subtraction wraps to \<^verbatim>\<open>INT_MIN\<close>.
\<close>

theorem sell_all_nonnegative_counterexample:
  "logic_addItem ''Cog'' ''Green'' 2147483647 1 2 initial_state = (1, full_stock_state) \<and>
   sint (quantity (hd (items full_stock_state))) = 2147483647 \<and>
   sell_all exact_ops [(''2026-10-30 09:00:00'', 1, - 1)] full_stock_state =
     \<lparr>items = [\<lparr>id_item = 1, name = ''Cog'', size_color = ''Green'', quantity = - 2147483648,
                 purchase_price = 1, selling_price = 2\<rparr>],
      sales = [\<lparr>id_sale = 1, item_id = 1, item_name = ''Cog'', quantity_sold = - 1,
                 profit = - 1, date_sold = ''2026-10-30 09:00:00''\<rparr>],
      nextItemId = 2, nextSaleId = 2\<rparr> \<and>
   sint (- 2147483648 :: int32) < 0"
  by (simp add: logic_addItem_def initial_state_def full_stock_state_def logic_sellItem_def
      exact_ops_def Let_def)

section \<open>Ids of added items\<close>

text \<open>Delete, update and sell introduce no id and leave the next-item-id counter alone.\<close>

lemma delete_ids:
  "id_item ` set (items (snd (logic_deleteItem i st))) \<subseteq> id_item ` set (items st) \<and>
   nextItemId (snd (logic_deleteItem i st)) = nextItemId st"
proof (cases "find_if_id i (items st)")
  case None
  then show ?thesis by (simp add: logic_deleteItem_def)
next
  case (Some k)
  have "set (take k (items st) @ drop (Suc k) (items st)) \<subseteq> set (items st)"
    using set_take_subset [of k "items st"] set_drop_subset [of "Suc k" "items st"] by auto
  with Some show ?thesis by (auto simp: logic_deleteItem_def)
qed

lemma ids_list_update:
  assumes "k < length xs" and "id_item y = id_item (xs ! k)"
  shows "id_item ` set (xs[k := y]) \<subseteq> id_item ` set xs"
proof
  fix a assume "a \<in> id_item ` set (xs[k := y])"
  then obtain z where z: "z \<in> set (xs[k := y])" "a = id_item z" by auto
  from z(1) set_update_subset_insert [of xs k y] have "z = y \<or> z \<in> set xs" by auto
  with z(2) assms nth_mem [OF assms(1)] show "a \<in> id_item ` set xs" by auto
qed

lemma update_ids:
  "id_item ` set (items (snd (logic_updateItem i q b s st))) \<subseteq> id_item ` set (items st) \<and>
   nextItemId (snd (logic_updateItem i q b s st)) = nextItemId st"
proof (cases "find_if_id i (items st)")
  case None
  then show ?thesis by (simp add: logic_updateItem_def)
next
  case (Some k)
  from find_if_id_Some [OF Some] have "k < length (items st)" by simp
  from ids_list_update [OF this, of "(items st ! k)\<lparr>quantity := q, purchase_price := b, selling_price := s\<rparr>"]
  show ?thesis using Some by (simp add: logic_updateItem_def)
qed

lemma sell_ids:
  "id_item ` set (items (snd (snd (logic_sellItem ops now i q po st)))) \<subseteq> id_item ` set (items st) \<and>
   nextItemId (snd (snd (logic_sellItem ops now i q po st))) = nextItemId st"
proof (cases "find_if_id i (items st)")
  case None
  then show ?thesis by (simp add: logic_sellItem_def)
next
  case (Some k)
  from find_if_id_Some [OF Some] have "k < length (items st)" by simp
  from ids_list_update [OF this, of "(items st ! k)\<lparr>quantity := quantity (items st ! k) - q\<rparr>"]
  show ?thesis using Some by (simp add: logic_sellItem_def Let_def)
qed

text \<open>
  The ids a session hands out are the consecutive values of the counter; every id in the
  store is one of those handed out so far.
\<close>

lemma run_calls_ids:
  assumes "id_item ` set (items st) \<subseteq> (\<lambda>j. c + of_nat j) ` {..<n}"
    and "nextItemId st = c + of_nat n"
  shows "fst (run_calls ops cs st) = map (\<lambda>j. c + of_nat j) [n..<n + adds cs] \<and>
         id_item ` set (items (snd (run_calls ops cs st))) \<subseteq> (\<lambda>j. c + of_nat j) ` {..<n + adds cs} \<and>
         nextItemId (snd (run_calls ops cs st)) = c + of_nat (n + adds cs)"
  using assms
proof (induction cs arbitrary: st n)
  case Nil
  then show ?case by simp
next
  case (Cons cl cs)
  show ?case
  proof (cases cl)
    case (Add nm sz qty buy sell)
    let ?st1 = "snd (logic_addItem nm sz qty buy sell st)"
    have a: "id_item ` set (items ?st1) \<subseteq> (\<lambda>j. c + of_nat j) ` {..<Suc n}"
      using Cons.prems by (auto simp: logic_addItem_def Let_def less_Suc_eq)
    have b: "nextItemId ?st1 = c + of_nat (Suc n)"
      using Cons.prems by (simp add: logic_addItem_def Let_def)
    have f: "fst (logic_addItem nm sz qty buy sell st) = c + of_nat n"
      using Cons.prems by (simp add: logic_addItem_def Let_def)
    from Cons.IH [OF a b] f Add show ?thesis
      by (simp add: split_beta upt_rec [of n])
  next
    case (Delete i)
    from delete_ids [of i st] Cons.prems(1) Cons.prems(2)
    have "id_item ` set (items (snd (logic_deleteItem i st))) \<subseteq> (\<lambda>j. c + of_nat j) ` {..<n}"
      and "nextItemId (snd (logic_deleteItem i st)) = c + of_nat n"
      by (blast, simp)
    from Cons.IH [OF this] Delete show ?thesis by (simp add: split_beta)
  next
    case (Update i q b s)
    from update_ids [of i q b s st] Cons.prems
    have "id_item ` set (items (snd (logic_updateItem i q b s st))) \<subseteq> (\<lambda>j. c + of_nat j) ` {..<n}"
      and "nextItemId (snd (logic_updateItem i q b s st)) = c + of_nat n"
      by (blast, simp)
    from Cons.IH [OF this] Update show ?thesis by (simp add: split_beta)
  next
    case (Sell now i q)
    from sell_ids [of ops now i q "dconv ops 0" st] Cons.prems
    have "id_item ` set (items (snd (snd (logic_sellItem ops now i q (dconv ops 0) st)))) \<subseteq> (\<lambda>j. c + of_nat j) ` {..<n}"
      and "nextItemId (snd (snd (logic_sellItem ops now i q (dconv ops 0) st))) = c + of_nat n"
      by (blast, simp)
    from Cons.IH [OF this] Sell show ?thesis by (simp add: split_beta)
  qed
qed

lemma sint_of_nat_small:
  assumes "n < 2147483648"
  shows "sint (of_nat n :: int32) = int n"
  using assms by (simp add: signed_of_nat signed_take_bit_int_eq_self)

lemma of_nat_neq_small:
  assumes "j < n" and "n < 2147483648"
  shows "(of_nat j :: int32) \<noteq> of_nat n"
proof
  assume "(of_nat j :: int32) = of_nat n"
  then have "sint (of_nat j :: int32) = sint (of_nat n :: int32)" by simp
  with assms show False by (simp add: sint_of_nat_small)
qed

lemma add_then_find:
  assumes "\<forall>x\<in>set (items st). id_item x \<noteq> nextItemId st"
  shows "find_by_id (nextItemId st) (snd (logic_addItem nm sz q b s st)) =
         Some \<lparr>id_item = nextItemId st, name = nm, size_color = sz, quantity = q,
               purchase_price = b, selling_price = s\<rparr>"
proof -
  have "find_if_id i (xs @ [y]) = Some (length xs)"
    if "\<forall>x\<in>set xs. id_item x \<noteq> i" "id_item y = i" for xs and y :: "'a Item" and i
    using that by (induction xs) auto
  from this [of "items st" "nextItemId st"] assms show ?thesis
    by (simp add: find_by_id_def logic_addItem_def Let_def)
qed

text \<open>
  Claim C7, as amended. In a state where no stored item carries the value of the
  next-item-id counter, \<^verbatim>\<open>logic_addItem\<close> returns that value, and the lookup of the
  returned id right after finds exactly the inserted fields. From the initial state, in
  any session of add, delete, update and sell calls with fewer than \<open>2\<^sup>3\<^sup>1\<close> adds, the
  adds return 1, 2, 3, ... in order (strictly increasing, none used twice), and the state
  reached is again one where no stored item carries the counter's value.
\<close>

theorem add_ids:
  "((\<forall>x\<in>set (items st). id_item x \<noteq> nextItemId st) \<longrightarrow>
      fst (logic_addItem nm sz q b s st) = nextItemId st \<and>
      find_by_id (fst (logic_addItem nm sz q b s st)) (snd (logic_addItem nm sz q b s st)) =
        Some \<lparr>id_item = fst (logic_addItem nm sz q b s st), name = nm, size_color = sz,
              quantity = q, purchase_price = b, selling_price = s\<rparr>) \<and>
   (adds cs < 2147483648 \<longrightarrow>
      map sint (fst (run_calls ops cs initial_state)) = map int [1..<Suc (adds cs)] \<and>
      (\<forall>x\<in>set (items (snd (run_calls ops cs initial_state))).
         id_item x \<noteq> nextItemId (snd (run_calls ops cs initial_state))))"
proof -
  have one: "fst (logic_addItem nm sz q b s st) = nextItemId st"
    by (simp add: logic_addItem_def Let_def)
  have run: "fst (run_calls ops cs initial_state) = map (\<lambda>j. 1 + of_nat j) [0..<0 + adds cs] \<and>
         id_item ` set (items (snd (run_calls ops cs initial_state))) \<subseteq> (\<lambda>j. 1 + of_nat j) ` {..<0 + adds cs} \<and>
         nextItemId (snd (run_calls ops cs initial_state)) = 1 + of_nat (0 + adds cs)"
    by (rule run_calls_ids) (simp_all add: initial_state_def)
  have two: "map sint (fst (run_calls ops cs initial_state)) = map int [1..<Suc (adds cs)]"
    if bound: "adds cs < 2147483648"
  proof -
    have "sint (1 + of_nat j :: int32) = int (Suc j)" if "j < adds cs" for j
    proof -
      have "(1 + of_nat j :: int32) = of_nat (Suc j)" by simp
      moreover have "Suc j < 2147483648" using that bound by simp
      ultimately show ?thesis by (simp only: sint_of_nat_small)
    qed
    then have "map sint (map (\<lambda>j. 1 + of_nat j :: int32) [0..<adds cs]) = map (\<lambda>j. int (Suc j)) [0..<adds cs]"
      by simp
    also have "\<dots> = map int (map Suc [0..<adds cs])" by simp
    also have "map Suc [0..<adds cs] = [1..<Suc (adds cs)]"
      by (simp add: map_Suc_upt)
    finally show ?thesis using run by simp
  qed
  have three: "id_item x \<noteq> nextItemId (snd (run_calls ops cs initial_state))"
    if bound: "adds cs < 2147483648" and x: "x \<in> set (items (snd (run_calls ops cs initial_state)))" for x
  proof -
    from run x obtain j where j: "j < adds cs" "id_item x = 1 + of_nat j" by auto
    from of_nat_neq_small [OF j(1) bound] have "(1 + of_nat j :: int32) \<noteq> 1 + of_nat (adds cs)"
      by simp
    with j(2) run show ?thesis by simp
  qed
  from one add_then_find [of st nm sz q b s] two three show ?thesis by auto
qed

text \<open>An add on the example store, and a session of five calls from the initial state.\<close>

theorem add_ids_witness:
  "find_by_id 3 (snd (logic_addItem ''Cog'' ''Green'' 2 1 2 example_state)) =
     Some \<lparr>id_item = 3, name = ''Cog'', size_color = ''Green'', quantity = 2,
           purchase_price = 1, selling_price = 2\<rparr> \<and>
   map sint (fst (run_calls exact_ops
     [Add ''Cog'' ''Green'' 2 1 2, Add ''Nut'' ''Grey'' 3 1 2, Delete 1, Sell ''t'' 2 1,
      Add ''Pin'' ''Red'' 1 1 2] initial_state)) = [1, 2, 3]"
proof -
  have h1: "\<forall>x\<in>set (items example_state). id_item x \<noteq> nextItemId example_state"
    by (simp add: example_state_def)
  have h2: "adds [Add ''Cog'' ''Green'' 2 1 2, Add ''Nut'' ''Grey'' 3 1 2, Delete 1, Sell ''t'' 2 1,
      Add ''Pin'' ''Red'' 1 (1 :: rat) 2] < 2147483648"
    by simp
  have e: "[1..<Suc (adds [Add ''Cog'' ''Green'' 2 1 2, Add ''Nut'' ''Grey'' 3 1 2, Delete 1, Sell ''t'' 2 1,
      Add ''Pin'' ''Red'' 1 (1 :: rat) 2])] = [1, 2, 3]"
    by (simp add: upt_rec)
  from add_ids [of example_state "''Cog''" "''Green''" 2 1 2
      "[Add ''Cog'' ''Green'' 2 1 2, Add ''Nut'' ''Grey'' 3 1 2, Delete 1, Sell ''t'' 2 1,
      Add ''Pin'' ''Red'' 1 1 2]" exact_ops] h1 h2
  have "find_by_id (fst (logic_addItem ''Cog'' ''Green'' 2 1 2 example_state))
          (snd (logic_addItem ''Cog'' ''Green'' 2 1 2 example_state)) =
        Some \<lparr>id_item = fst (logic_addItem ''Cog'' ''Green'' 2 1 2 example_state), name = ''Cog'',
              size_color = ''Green'', quantity = 2, purchase_price = 1, selling_price = 2\<rparr>"
    and "map sint (fst (run_calls exact_ops
     [Add ''Cog'' ''Green'' 2 1 2, Add ''Nut'' ''Grey'' 3 1 2, Delete 1, Sell ''t'' 2 1,
      Add ''Pin'' ''Red'' 1 1 2] initial_state)) = map int [1..<Suc (adds [Add ''Cog'' ''Green'' 2 1 2, Add ''Nut'' ''Grey'' 3 1 2, Delete 1, Sell ''t'' 2 1,
      Add ''Pin'' ''Red'' 1 (1 :: rat) 2])]"
    by blast+
  then show ?thesis
    by (simp add: e) (simp add: logic_addItem_def example_state_def Let_def)
qed

text \<open>
  The claim as stated fails when the counter overflows. After loading a file whose largest
  id is \<^verbatim>\<open>INT_MAX - 1\<close> the counter is \<^verbatim>\<open>INT_MAX\<close>: the first add returns
  \<^verbatim>\<open>INT_MAX\<close>, the second returns \<^verbatim>\<open>INT_MIN\<close>, which is smaller and is already the
  id of a stored item, and the lookup of it finds that older item, not the one inserted.
\<close>

theorem add_ids_counterexample:
  "loadData exact_ops wrapped_files initial_state = Inr wrapped_state \<and>
   fst (run_calls exact_ops [Add ''Pin'' ''Red'' 1 1 2, Add ''Cap'' ''Blue'' 4 1 2] wrapped_state)
     = [2147483647, - 2147483648] \<and>
   sint (- 2147483648 :: int32) < sint (2147483647 :: int32) \<and>
   find_by_id (- 2147483648)
     (snd (run_calls exact_ops [Add ''Pin'' ''Red'' 1 1 2, Add ''Cap'' ''Blue'' 4 1 2] wrapped_state))
     = Some \<lparr>id_item = - 2147483648, name = ''Cog'', size_color = ''Green'', quantity = 2,
             purchase_price = 1, selling_price = 2\<rparr>"
proof -
  have "loadData exact_ops wrapped_files initial_state = Inr wrapped_state"
    by (simp add: load_eval wrapped_files_def wrapped_state_def initial_state_def)
  moreover have "fst (run_calls exact_ops [Add ''Pin'' ''Red'' 1 1 2, Add ''Cap'' ''Blue'' 4 1 2] wrapped_state)
     = [2147483647, - 2147483648]"
    by (simp add: logic_addItem_def wrapped_state_def Let_def)
  moreover have "find_by_id (- 2147483648)
     (snd (run_calls exact_ops [Add ''Pin'' ''Red'' 1 1 2, Add ''Cap'' ''Blue'' 4 1 2] wrapped_state))
     = Some \<lparr>id_item = - 2147483648, name = ''Cog'', size_color = ''Green'', quantity = 2,
             purchase_price = 1, selling_price = 2\<rparr>"
    by (simp add: logic_addItem_def wrapped_state_def Let_def find_by_id_def)
  ultimately show ?thesis by simp
qed

section \<open>Save, then load\<close>

text \<open>Reading the pieces of a text back: lines of a file, fields of a row.\<close>

lemma getline_loop_delim:
  "d \<notin> set l \<Longrightarrow> getline_loop d cur (l @ d # rest) = (cur @ l) # getline_loop d [] rest"
  by (induction l arbitrary: cur) auto

lemma getline_loop_last:
  "d \<notin> set l \<Longrightarrow> getline_loop d cur l = (if cur @ l = [] then [] else [cur @ l])"
  by (induction l arbitrary: cur) auto

lemma file_lines_concat:
  assumes "\<forall>x\<in>set xs. CHR 0x0A \<notin> set (f x)"
  shows "file_lines (concat (map (\<lambda>x. f x @ [CHR 0x0A]) xs)) = map f xs"
  using assms
proof (induction xs)
  case Nil
  then show ?case by (simp add: file_lines_def)
next
  case (Cons x xs)
  then have "CHR 0x0A \<notin> set (f x)" by simp
  from getline_loop_delim [OF this, of "[]"] Cons show ?case
    by (simp add: file_lines_def)
qed

lemma parseCSV_join_commas:
  assumes "fs \<noteq> []" and "\<forall>f\<in>set fs. CHR '','' \<notin> set f" and "last fs \<noteq> []"
  shows "parseCSV (join_commas fs) = fs"
  using assms
proof (induction fs rule: join_commas.induct)
  case 1
  then show ?case by simp
next
  case (2 f)
  then show ?case by (simp add: parseCSV_def getline_loop_last)
next
  case (3 f g fs)
  then have "CHR '','' \<notin> set f" by simp
  from getline_loop_delim [OF this, of "[]"] 3 show ?case
    by (simp add: parseCSV_def)
qed

lemma trim_not_empty:
  assumes "c \<in> set s" and "\<not> trim_char c"
  shows "trim s \<noteq> []"
proof -
  from assms have ne: "dropWhile trim_char s \<noteq> []" by auto
  from hd_dropWhile [OF ne] have "\<not> trim_char (hd (dropWhile trim_char s))" .
  moreover from ne have "hd (dropWhile trim_char s) \<in> set (rev (dropWhile trim_char s))"
    by simp
  ultimately have "dropWhile trim_char (rev (dropWhile trim_char s)) \<noteq> []"
    by (metis dropWhile_eq_Nil_conv)
  then show ?thesis by (simp add: trim_def)
qed

text \<open>An \<^verbatim>\<open>int\<close> printed by \<^verbatim>\<open><<\<close> is read back by \<^verbatim>\<open>stoi\<close>.\<close>

lemma isdigit_digit_char: "k < 10 \<Longrightarrow> isdigit (digit_char k)"
  by (simp add: isdigit_def digit_char_def)

lemma of_char_digit_char: "k < 10 \<Longrightarrow> of_char (digit_char k) - 48 = k"
  by (simp add: digit_char_def)

lemma isdigit_other:
  assumes "isdigit c"
  shows "c \<noteq> CHR '',''" and "c \<noteq> CHR 0x0A" and "c \<noteq> CHR ''-''" and "c \<noteq> CHR ''+''"
    and "\<not> isspace c"
  using assms by (auto simp: isdigit_def isspace_def)

lemma show_nat_digits:
  "show_nat n \<noteq> [] \<and> (\<forall>c\<in>set (show_nat n). isdigit c) \<and> digits_val (show_nat n) = n"
proof (induction n rule: show_nat.induct)
  case (1 n)
  show ?case
  proof (cases "n < 10")
    case True
    then show ?thesis
      by (simp add: show_nat.simps [of n] digits_val_def isdigit_digit_char of_char_digit_char)
  next
    case False
    have m: "n mod 10 < 10" by simp
    from 1 [OF False] False show ?thesis
      by (simp add: show_nat.simps [of n] digits_val_def isdigit_digit_char [OF m]
          of_char_digit_char [OF m])
  qed
qed

lemma stoi_digits:
  assumes ne: "ds \<noteq> []" and dig: "\<forall>c\<in>set ds. isdigit c"
  shows "stoi ds =
           (if int (digits_val ds) \<le> 2147483647 then Inr (word_of_int (int (digits_val ds)))
            else Inl OutOfRange)"
    and "stoi (CHR ''-'' # ds) =
           (if int (digits_val ds) \<le> 2147483648 then Inr (word_of_int (- int (digits_val ds)))
            else Inl OutOfRange)"
proof -
  from ne have h: "hd ds \<in> set ds" by simp
  with dig have hd: "isdigit (hd ds)" by simp
  have tw: "takeWhile isdigit ds = ds" using dig by simp
  have dw: "dropWhile isspace ds = ds"
    using isdigit_other(5) [OF hd] by (simp add: dropWhile_eq_self_iff)
  have sp: "\<not> isspace (CHR ''-'')" by (simp add: isspace_def)
  show "stoi ds =
           (if int (digits_val ds) \<le> 2147483647 then Inr (word_of_int (int (digits_val ds)))
            else Inl OutOfRange)"
    using ne isdigit_other(3,4) [OF hd] by (simp add: stoi_def Let_def tw dw)
  show "stoi (CHR ''-'' # ds) =
           (if int (digits_val ds) \<le> 2147483648 then Inr (word_of_int (- int (digits_val ds)))
            else Inl OutOfRange)"
    using ne sp by (simp add: stoi_def Let_def tw)
qed

lemma stoi_show_int: "stoi (show_int w) = Inr w"
proof (cases "sint w < 0")
  case True
  let ?ds = "show_nat (nat (- sint w))"
  have p: "?ds \<noteq> []" "\<forall>c\<in>set ?ds. isdigit c" "digits_val ?ds = nat (- sint w)"
    using show_nat_digits [of "nat (- sint w)"] by simp_all
  have lo: "- 2147483648 \<le> sint w" using sint_ge [of w] by simp
  from True have v: "- int (digits_val ?ds) = sint w" by (simp add: p(3))
  have "stoi (CHR ''-'' # ?ds) = Inr (word_of_int (- int (digits_val ?ds)))"
    using lo True by (simp add: stoi_digits(2) [OF p(1,2)] p(3))
  then show ?thesis using True by (simp only: v show_int_def if_True) simp
next
  case False
  let ?ds = "show_nat (nat (sint w))"
  have p: "?ds \<noteq> []" "\<forall>c\<in>set ?ds. isdigit c" "digits_val ?ds = nat (sint w)"
    using show_nat_digits [of "nat (sint w)"] by simp_all
  have hi: "sint w \<le> 2147483647" using sint_lt [of w] by simp
  from False have v: "int (digits_val ?ds) = sint w" by (simp add: p(3))
  have "stoi ?ds = Inr (word_of_int (int (digits_val ?ds)))"
    using hi False by (simp add: stoi_digits(1) [OF p(1,2)] p(3))
  then show ?thesis using False by (simp only: v show_int_def if_False) simp
qed

lemma show_int_chars:
  assumes "c \<in> set (show_int w)"
  shows "c \<noteq> CHR '',''" and "c \<noteq> CHR 0x0A"
proof -
  from assms have "c = CHR ''-'' \<or> isdigit c"
    using show_nat_digits [of "nat (- sint w)"] show_nat_digits [of "nat (sint w)"]
    by (auto simp: show_int_def split: if_splits)
  then show "c \<noteq> CHR '',''" and "c \<noteq> CHR 0x0A"
    using isdigit_other(1,2) [of c] by auto
qed

lemma plain_text_show_int: "plain_text (show_int w)"
  using show_int_chars [of _ w] by (auto simp: plain_text_def)

text \<open>A storable row is read back as the record it was written from.\<close>

lemma item_line_fields: "item_line ops it = join_commas (item_fields ops it) @ [CHR 0x0A]"
  by (simp add: item_line_def item_fields_def)

lemma sale_line_fields: "sale_line ops s = join_commas (sale_fields ops s) @ [CHR 0x0A]"
  by (simp add: sale_line_def sale_fields_def)

lemma join_commas_newline:
  "\<forall>f\<in>set fs. CHR 0x0A \<notin> set f \<Longrightarrow> CHR 0x0A \<notin> set (join_commas fs)"
  by (induction fs rule: join_commas.induct) auto

lemma join_commas_has_comma: "2 \<le> length fs \<Longrightarrow> CHR '','' \<in> set (join_commas fs)"
  by (induction fs rule: join_commas.induct) auto

lemma item_row:
  assumes "item_storable ops it"
  shows "parseCSV (join_commas (item_fields ops it)) = item_fields ops it"
    and "trim (join_commas (item_fields ops it)) \<noteq> []"
    and "CHR 0x0A \<notin> set (join_commas (item_fields ops it))"
    and "parse_item ops (item_fields ops it) = Inr it"
proof -
  have pi: "plain_text (show_int (id_item it))" and pq: "plain_text (show_int (quantity it))"
    by (rule plain_text_show_int)+
  from assms pi pq have all: "\<forall>f\<in>set (item_fields ops it). plain_text f"
    by (simp add: item_storable_def double_roundtrips_def item_fields_def)
  from assms have last: "last (item_fields ops it) \<noteq> []"
    by (simp add: item_storable_def double_roundtrips_def item_fields_def)
  from all last show "parseCSV (join_commas (item_fields ops it)) = item_fields ops it"
    by (intro parseCSV_join_commas) (auto simp: plain_text_def item_fields_def)
  have "CHR '','' \<in> set (join_commas (item_fields ops it))"
    by (rule join_commas_has_comma) (simp add: item_fields_def)
  then show "trim (join_commas (item_fields ops it)) \<noteq> []"
    by (rule trim_not_empty) (simp add: trim_char_def)
  from all show "CHR 0x0A \<notin> set (join_commas (item_fields ops it))"
    by (intro join_commas_newline) (simp add: plain_text_def)
  from assms show "parse_item ops (item_fields ops it) = Inr it"
    by (simp add: parse_item_def item_fields_def and_then_def stoi_show_int
        item_storable_def double_roundtrips_def)
qed

lemma sale_row:
  assumes "sale_storable ops s"
  shows "parseCSV (join_commas (sale_fields ops s)) = sale_fields ops s"
    and "trim (join_commas (sale_fields ops s)) \<noteq> []"
    and "CHR 0x0A \<notin> set (join_commas (sale_fields ops s))"
    and "parse_sale ops (sale_fields ops s) = Inr s"
proof -
  have pi: "plain_text (show_int (id_sale s))" and pj: "plain_text (show_int (item_id s))"
    and pq: "plain_text (show_int (quantity_sold s))"
    by (rule plain_text_show_int)+
  from assms pi pj pq have all: "\<forall>f\<in>set (sale_fields ops s). plain_text f"
    by (simp add: sale_storable_def double_roundtrips_def sale_fields_def)
  from assms have last: "last (sale_fields ops s) \<noteq> []"
    by (simp add: sale_storable_def sale_fields_def)
  from all last show "parseCSV (join_commas (sale_fields ops s)) = sale_fields ops s"
    by (intro parseCSV_join_commas) (auto simp: plain_text_def sale_fields_def)
  have "CHR '','' \<in> set (join_commas (sale_fields ops s))"
    by (rule join_commas_has_comma) (simp add: sale_fields_def)
  then show "trim (join_commas (sale_fields ops s)) \<noteq> []"
    by (rule trim_not_empty) (simp add: trim_char_def)
  from all show "CHR 0x0A \<notin> set (join_commas (sale_fields ops s))"
    by (intro join_commas_newline) (simp add: plain_text_def)
  from assms show "parse_sale ops (sale_fields ops s) = Inr s"
    by (simp add: parse_sale_def sale_fields_def and_then_def stoi_show_int
        sale_storable_def double_roundtrips_def)
qed

lemma load_items_rows:
  assumes "\<forall>it\<in>set xs. item_storable ops it"
  shows "load_items ops (map (\<lambda>it. join_commas (item_fields ops it)) xs) st =
           Inr (st\<lparr>items := items st @ xs,
                   nextItemId := foldl bump_id (nextItemId st) (map id_item xs)\<rparr>)"
  using assms
proof (induction xs arbitrary: st)
  case Nil
  then show ?case by simp
next
  case (Cons x xs)
  then have x: "item_storable ops x" by simp
  have six: "6 \<le> length (item_fields ops x)" by (simp add: item_fields_def)
  from Cons show ?case
    by (simp add: item_row [OF x] six bump_id_def)
qed

lemma load_sales_rows:
  assumes "\<forall>s\<in>set xs. sale_storable ops s"
  shows "load_sales ops (map (\<lambda>s. join_commas (sale_fields ops s)) xs) st =
           Inr (st\<lparr>sales := sales st @ xs,
                   nextSaleId := foldl bump_id (nextSaleId st) (map id_sale xs)\<rparr>)"
  using assms
proof (induction xs arbitrary: st)
  case Nil
  then show ?case by simp
next
  case (Cons x xs)
  then have x: "sale_storable ops x" by simp
  have six: "6 \<le> length (sale_fields ops x)" by (simp add: sale_fields_def)
  from Cons show ?case
    by (simp add: sale_row [OF x] six bump_id_def)
qed

text \<open>The counters end above every id read, unless an id is \<^verbatim>\<open>INT_MAX\<close>.\<close>

lemma sint_succ:
  fixes i :: int32
  assumes "sint i < 2147483647"
  shows "sint (i + 1) = sint i + 1"
proof -
  have "- 2147483648 \<le> sint i" using sint_ge [of i] by simp
  with assms show ?thesis
    by (simp add: sint_word_ariths signed_take_bit_int_eq_self)
qed

lemma foldl_bump_above:
  assumes "\<forall>i\<in>set ids. sint i < 2147483647"
  shows "sint n \<le> sint (foldl bump_id n ids) \<and>
         (\<forall>i\<in>set ids. sint i < sint (foldl bump_id n ids))"
  using assms
proof (induction ids arbitrary: n)
  case Nil
  then show ?case by simp
next
  case (Cons i ids)
  then have i: "sint i < 2147483647" by simp
  have step: "sint n \<le> sint (bump_id n i) \<and> sint i < sint (bump_id n i)"
    using sint_succ [OF i] by (simp add: bump_id_def)
  from Cons.IH [of "bump_id n i"] Cons.prems
  have "sint (bump_id n i) \<le> sint (foldl bump_id (bump_id n i) ids)"
    and "\<forall>j\<in>set ids. sint j < sint (foldl bump_id (bump_id n i) ids)"
    by simp_all
  with step show ?case by auto
qed

text \<open>
  Claim C3, as amended. Take a state with at least one item or sale, in which every name,
  variant and item name is free of commas and newlines, every date is non-empty and free of
  them, and every price and profit is printed by \<^verbatim>\<open><<\<close> as a text that
  \<^verbatim>\<open>stod\<close> reads back as the same double. Then a save that opens both files, followed
  by a load (from any in-memory state), gives the same items and the same sales, every
  field and id equal, in the same order. If no item id is \<^verbatim>\<open>INT_MAX\<close>, the
  next-item-id counter is greater than every item id; likewise for the sales.
\<close>

theorem save_load_roundtrip:
  assumes "items st \<noteq> [] \<or> sales st \<noteq> []"
    and "\<forall>it\<in>set (items st). item_storable ops it"
    and "\<forall>s\<in>set (sales st). sale_storable ops s"
  shows "loadData ops (saveData ops True True st fs) st0 =
           Inr \<lparr>items = items st, sales = sales st,
                nextItemId = foldl bump_id 1 (map id_item (items st)),
                nextSaleId = foldl bump_id 1 (map id_sale (sales st))\<rparr> \<and>
         ((\<forall>it\<in>set (items st). sint (id_item it) < 2147483647) \<longrightarrow>
            (\<forall>it\<in>set (items st).
               sint (id_item it) < sint (foldl bump_id 1 (map id_item (items st))))) \<and>
         ((\<forall>s\<in>set (sales st). sint (id_sale s) < 2147483647) \<longrightarrow>
            (\<forall>s\<in>set (sales st).
               sint (id_sale s) < sint (foldl bump_id 1 (map id_sale (sales st)))))"
proof -
  have "\<forall>it\<in>set (items st). CHR 0x0A \<notin> set (join_commas (item_fields ops it))"
    using item_row(3) assms(2) by blast
  from file_lines_concat [OF this]
  have li: "file_lines (concat (map (item_line ops) (items st))) =
              map (\<lambda>it. join_commas (item_fields ops it)) (items st)"
    by (simp add: item_line_fields [abs_def])
  have "\<forall>s\<in>set (sales st). CHR 0x0A \<notin> set (join_commas (sale_fields ops s))"
    using sale_row(3) assms(3) by blast
  from file_lines_concat [OF this]
  have ls: "file_lines (concat (map (sale_line ops) (sales st))) =
              map (\<lambda>s. join_commas (sale_fields ops s)) (sales st)"
    by (simp add: sale_line_fields [abs_def])
  have "loadData ops (saveData ops True True st fs) st0 =
           Inr \<lparr>items = items st, sales = sales st,
                nextItemId = foldl bump_id 1 (map id_item (items st)),
                nextSaleId = foldl bump_id 1 (map id_sale (sales st))\<rparr>"
    using assms(1)
    by (auto simp: loadData_def saveData_def and_then_def li ls
        load_items_rows [OF assms(2)] load_sales_rows [OF assms(3)])
  moreover have "\<forall>it\<in>set (items st).
               sint (id_item it) < sint (foldl bump_id 1 (map id_item (items st)))"
    if "\<forall>it\<in>set (items st). sint (id_item it) < 2147483647"
    using foldl_bump_above [of "map id_item (items st)" 1] that by simp
  moreover have "\<forall>s\<in>set (sales st).
               sint (id_sale s) < sint (foldl bump_id 1 (map id_sale (sales st)))"
    if "\<forall>s\<in>set (sales st). sint (id_sale s) < 2147483647"
    using foldl_bump_above [of "map id_sale (sales st)" 1] that by simp
  ultimately show ?thesis by blast
qed

text \<open>The numbers of the example are printed and read back exactly.\<close>

lemma exact_roundtrips:
  "double_roundtrips exact_ops 5" "double_roundtrips exact_ops 8"
  "double_roundtrips exact_ops (1/2)" "double_roundtrips exact_ops 1"
  "double_roundtrips exact_ops 6"
  by code_simp+

text \<open>The example store after a sale is stored and read back unchanged.\<close>

theorem save_load_roundtrip_witness:
  "sales sold_state \<noteq> [] \<and>
   list_all (item_storable exact_ops) (items sold_state) \<and>
   list_all (sale_storable exact_ops) (sales sold_state) \<and>
   loadData exact_ops (saveData exact_ops True True sold_state \<lparr>items_csv = None, sales_csv = None\<rparr>)
     initial_state = Inr sold_state"
proof -
  have h1: "items sold_state \<noteq> [] \<or> sales sold_state \<noteq> []"
    by (simp add: sold_state_def)
  have h2: "\<forall>it\<in>set (items sold_state). item_storable exact_ops it"
    by (simp add: sold_state_def item_storable_def plain_text_def exact_roundtrips)
  have h3: "\<forall>s\<in>set (sales sold_state). sale_storable exact_ops s"
    by (simp add: sold_state_def sale_storable_def plain_text_def exact_roundtrips)
  have c: "foldl bump_id 1 (map id_item (items sold_state)) = 3"
    "foldl bump_id 1 (map id_sale (sales sold_state)) = 2"
    by (simp_all add: sold_state_def bump_id_def)
  from save_load_roundtrip [OF h1 h2 h3, of "\<lparr>items_csv = None, sales_csv = None\<rparr>" initial_state]
  have "loadData exact_ops (saveData exact_ops True True sold_state \<lparr>items_csv = None, sales_csv = None\<rparr>)
     initial_state = Inr \<lparr>items = items sold_state, sales = sales sold_state,
                nextItemId = 3, nextSaleId = 2\<rparr>"
    by (simp only: c)
  moreover have "\<lparr>items = items sold_state, sales = sales sold_state,
                nextItemId = 3, nextSaleId = 2\<rparr> = sold_state"
    by (simp add: sold_state_def)
  ultimately show ?thesis using h2 h3
    by (simp add: list_all_iff) (simp add: sold_state_def)
qed

text \<open>
  The claim as stated fails for the empty store: both files are written empty, the load
  reads no row, finds both vectors empty and puts the three default items there.
\<close>

theorem save_load_roundtrip_counterexample:
  "items (initial_state :: rat state) = [] \<and>
   saveData exact_ops True True initial_state \<lparr>items_csv = None, sales_csv = None\<rparr> =
     \<lparr>items_csv = Some [], sales_csv = Some []\<rparr> \<and>
   loadData exact_ops \<lparr>items_csv = Some [], sales_csv = Some []\<rparr> initial_state =
     Inr \<lparr>items =
            [\<lparr>id_item = 1, name = ''Widget'', size_color = ''Small'', quantity = 10,
              purchase_price = 5, selling_price = 8\<rparr>,
             \<lparr>id_item = 2, name = ''Bolt'', size_color = ''Red'', quantity = 3,
              purchase_price = 1/2, selling_price = 1\<rparr>,
             \<lparr>id_item = 3, name = ''Gadget'', size_color = ''Blue'', quantity = 20,
              purchase_price = 10, selling_price = 15\<rparr>],
          sales = [], nextItemId = 4, nextSaleId = 1\<rparr>"
  by (simp add: initial_state_def saveData_def load_eval seedData_def Let_def)

text \<open>
  Why the other conditions are there. A name with a comma shifts the fields, and the load
  ends with the exception of \<^verbatim>\<open>stoi\<close> on a text field; an id of \<^verbatim>\<open>INT_MAX\<close> wraps
  the counter to \<^verbatim>\<open>INT_MIN\<close>.
\<close>

lemma save_load_comma_in_name:
  "saveData exact_ops True True
     \<lparr>items = [\<lparr>id_item = 1, name = ''Nut, large'', size_color = ''Grey'', quantity = 3,
                 purchase_price = 1, selling_price = 2\<rparr>],
      sales = [], nextItemId = 2, nextSaleId = 1\<rparr> \<lparr>items_csv = None, sales_csv = None\<rparr> =
     \<lparr>items_csv = Some (''1,Nut, large,Grey,3,1,2'' @ [CHR 0x0A]), sales_csv = Some []\<rparr> \<and>
   loadData exact_ops
     \<lparr>items_csv = Some (''1,Nut, large,Grey,3,1,2'' @ [CHR 0x0A]), sales_csv = Some []\<rparr> st0 =
     Inl InvalidArgument"
proof -
  have "show_int 1 = ''1''" "show_int 3 = ''3''" "show_exact 1 = ''1''" "show_exact 2 = ''2''"
    by code_simp+
  then have "saveData exact_ops True True
     \<lparr>items = [\<lparr>id_item = 1, name = ''Nut, large'', size_color = ''Grey'', quantity = 3,
                 purchase_price = 1, selling_price = 2\<rparr>],
      sales = [], nextItemId = 2, nextSaleId = 1\<rparr> \<lparr>items_csv = None, sales_csv = None\<rparr> =
     \<lparr>items_csv = Some (''1,Nut, large,Grey,3,1,2'' @ [CHR 0x0A]), sales_csv = Some []\<rparr>"
    by (simp add: saveData_def item_line_def exact_ops_def)
  moreover have "loadData exact_ops
     \<lparr>items_csv = Some (''1,Nut, large,Grey,3,1,2'' @ [CHR 0x0A]), sales_csv = Some []\<rparr> st0 =
     Inl InvalidArgument"
    by (simp add: load_eval)
  ultimately show ?thesis by simp
qed

lemma load_id_int_max:
  "loadData exact_ops \<lparr>items_csv = Some ''2147483647,Nut,Grey,3,1,2'', sales_csv = None\<rparr> st0 =
     Inr \<lparr>items = [\<lparr>id_item = 2147483647, name = ''Nut'', size_color = ''Grey'', quantity = 3,
                     purchase_price = 1, selling_price = 2\<rparr>],
          sales = [], nextItemId = - 2147483648, nextSaleId = 1\<rparr>"
  by (simp add: load_eval)

end
